theory Spec2Isabelle
  imports Main
begin

section \<open>The authentication service of NotesVerb\<close>

text \<open>
  The class \<open>AuthService\<close> (register, login, refreshToken, logout, validateToken,
  getUserById) is embedded as functions over an explicit store. Three collaborators are
  libraries and not code of the service; they are modelled symbolically:
  \<^item> \<open>jsonwebtoken\<close>: a token is the signed claim set together with the key that signed
    it, or a string that is no token at all;
  \<^item> \<open>bcryptjs\<close>: a hash remembers the cost, the salt and the plaintext it was made of,
    and \<open>compare\<close> accepts exactly that plaintext;
  \<^item> the Prisma client: two tables held as lists of rows, with the unique and foreign
    key constraints that the queries of the service rely on.
  Time is a number of milliseconds since the epoch, as \<open>Date\<close> has it. Every operation
  reads the clock at one instant \<open>now\<close>, passed as an argument, as is the local time
  zone \<open>tz\<close> of the process where \<open>Date\<close> computes with calendar days.
\<close>

subsection \<open>Data model\<close>

text \<open>
  Identifiers are generated by the store. They are strings in the source; here they are
  natural numbers drawn from a counter, which keeps the one property the service uses:
  a generated identifier is new.
\<close>

record JWTPayload =
  userId :: nat
  email :: string
  iat :: nat
  exp :: nat

datatype jwt =
  JWT (claims: JWTPayload) (signing_key: string)
  | NotJWT string

record User =
  user_id :: nat
  user_email :: string
  createdAt :: nat
  updatedAt :: nat

datatype pwhash = Bcrypt (hash_rounds: nat) (hash_salt: string) (hash_plain: string)

text \<open>The row of the table \<open>user\<close>: the fields of \<open>User\<close> and the password hash.\<close>

record UserRow = User +
  password :: pwhash

record RefreshToken =
  rt_id :: nat
  rt_userId :: nat
  token :: jwt
  expiresAt :: nat

text \<open>
  \<open>AuthTokens\<close> of the shared types. The field \<open>refreshToken\<close> is written
  \<open>refreshToken'\<close>, since \<open>refreshToken\<close> names the method of the service.
\<close>

record AuthTokens =
  accessToken :: jwt
  refreshToken' :: jwt

text \<open>
  What the code may throw. \<open>ServiceError\<close> is the class of the shared types (its
  \<open>details\<close> field is never set by this service and is left out); \<open>code\<close> holds the
  third argument of \<open>createServiceError\<close>, which the catch blocks fill with the error
  they caught. Everything else that is thrown comes from a library.
\<close>

datatype thrown =
  JsonWebTokenError
  | TokenExpiredError
  | UniqueConstraintFailed
  | ForeignKeyConstraintFailed
  | RecordNotFound
  | TypeError

datatype error =
  ServiceError (message: string) (statusCode: nat) (code: "thrown option")
  | Thrown thrown

text \<open>
  The fields of the class. The two lifetimes are strings such as \<open>15m\<close> in the source;
  the model holds the number of seconds they denote.
\<close>

record AuthService =
  jwtSecret :: string
  jwtRefreshSecret :: string
  jwtExpiresIn :: nat
  jwtRefreshExpiresIn :: nat
  bcryptRounds :: nat

record store =
  users :: "UserRow list"
  refreshTokens :: "RefreshToken list"
  nextUserId :: nat
  nextTokenId :: nat

definition emptyStore :: store where
  "emptyStore = \<lparr>users = [], refreshTokens = [], nextUserId = 0, nextTokenId = 0\<rparr>"

subsection \<open>Token Signer\<close>

text \<open>
  Modelled from the spec: the library \<open>jsonwebtoken\<close> is not part of the sources.
  \<open>sign\<close> embeds issued-at and an expiry derived from the lifetime, both in whole
  seconds; \<open>verify\<close> fails if the signature is invalid or the expiry has elapsed.
\<close>

definition jwt_sign :: "nat \<Rightarrow> string \<Rightarrow> string \<Rightarrow> nat \<Rightarrow> nat \<Rightarrow> jwt" where
  "jwt_sign uid em secret ttl now =
     JWT \<lparr>userId = uid, email = em, iat = now div 1000, exp = now div 1000 + ttl\<rparr> secret"

definition jwt_verify :: "jwt \<Rightarrow> string \<Rightarrow> nat \<Rightarrow> thrown + JWTPayload" where
  "jwt_verify tok secret now =
     (case tok of
        NotJWT s \<Rightarrow> Inl JsonWebTokenError
      | JWT p k \<Rightarrow>
          if k \<noteq> secret then Inl JsonWebTokenError
          else if exp p \<le> now div 1000 then Inl TokenExpiredError
          else Inr p)"

subsection \<open>Password Hasher\<close>

text \<open>
  Modelled from the spec: the library \<open>bcryptjs\<close> is not part of the sources. A one-way
  salted hash with a cost factor, and the verification that belongs to it.
\<close>

definition bcrypt_hash :: "string \<Rightarrow> nat \<Rightarrow> string \<Rightarrow> pwhash" where
  "bcrypt_hash pw rounds salt = Bcrypt rounds salt pw"

definition bcrypt_compare :: "string \<Rightarrow> pwhash \<Rightarrow> bool" where
  "bcrypt_compare pw h = (hash_plain h = pw)"

subsection \<open>Credential Store\<close>

text \<open>
  Modelled from the spec: the Prisma schema is not part of the sources. The queries of
  the service fix what is needed of it: \<open>findUnique\<close> is called with \<open>email\<close> and \<open>id\<close>
  of a user and with \<open>token\<close> of a refresh token, so these are unique; a refresh token
  includes its \<open>user\<close>, so \<open>userId\<close> is a foreign key. \<open>create\<close> throws when a
  constraint fails, \<open>delete\<close> throws when there is no such row, \<open>deleteMany\<close> never
  throws.
\<close>

definition user_findUnique_email :: "store \<Rightarrow> string \<Rightarrow> UserRow option" where
  "user_findUnique_email st em = find (\<lambda>u. user_email u = em) (users st)"

definition user_findUnique_id :: "store \<Rightarrow> nat \<Rightarrow> UserRow option" where
  "user_findUnique_id st uid = find (\<lambda>u. user_id u = uid) (users st)"

definition user_create :: "store \<Rightarrow> string \<Rightarrow> pwhash \<Rightarrow> nat \<Rightarrow> thrown + (UserRow \<times> store)" where
  "user_create st em h now =
     (if em \<in> set (map user_email (users st)) then Inl UniqueConstraintFailed
      else
        let user = \<lparr>user_id = nextUserId st, user_email = em, createdAt = now,
                     updatedAt = now, password = h\<rparr>
        in Inr (user, st\<lparr>users := users st @ [user], nextUserId := Suc (nextUserId st)\<rparr>))"

definition refreshToken_create :: "store \<Rightarrow> nat \<Rightarrow> jwt \<Rightarrow> nat \<Rightarrow> thrown + store" where
  "refreshToken_create st uid tok ex =
     (if tok \<in> set (map token (refreshTokens st)) then Inl UniqueConstraintFailed
      else if uid \<notin> set (map user_id (users st)) then Inl ForeignKeyConstraintFailed
      else Inr (st\<lparr>refreshTokens := refreshTokens st @
                       [\<lparr>rt_id = nextTokenId st, rt_userId = uid, token = tok, expiresAt = ex\<rparr>],
                     nextTokenId := Suc (nextTokenId st)\<rparr>))"

definition refreshToken_findUnique :: "store \<Rightarrow> jwt \<Rightarrow> (RefreshToken \<times> UserRow option) option" where
  "refreshToken_findUnique st tok =
     (case find (\<lambda>r. token r = tok) (refreshTokens st) of
        None \<Rightarrow> None
      | Some r \<Rightarrow> Some (r, user_findUnique_id st (rt_userId r)))"

definition refreshToken_delete :: "store \<Rightarrow> nat \<Rightarrow> thrown + store" where
  "refreshToken_delete st i =
     (if i \<notin> set (map rt_id (refreshTokens st)) then Inl RecordNotFound
      else Inr (st\<lparr>refreshTokens := filter (\<lambda>r. rt_id r \<noteq> i) (refreshTokens st)\<rparr>))"

definition refreshToken_deleteMany :: "store \<Rightarrow> jwt \<Rightarrow> store" where
  "refreshToken_deleteMany st tok =
     st\<lparr>refreshTokens := filter (\<lambda>r. token r \<noteq> tok) (refreshTokens st)\<rparr>"

subsection \<open>Token Lifecycle Manager\<close>

text \<open>
  \<open>const expiresAt = new Date(); expiresAt.setDate(expiresAt.getDate() + 7)\<close>.
  \<open>Date\<close> does this arithmetic on the local calendar of the process: \<open>getDate\<close> reads
  the day of the month of the local time \<open>LocalTime(t)\<close>, and \<open>setDate\<close> builds the local
  time with that day number plus 7 and the same time within the day, which is the local
  time plus seven times \<open>msPerDay\<close>, and converts it back with \<open>UTC\<close>. The time zone is
  what ECMAScript calls \<open>LocalTZA(t, isUTC)\<close>: the offset of local time from UTC in
  milliseconds, at the UTC instant \<open>t\<close> when \<open>isUTC\<close> holds and at the local time \<open>t\<close>
  otherwise. It belongs to the process, and is a parameter of every method that mints
  tokens.
\<close>

type_synonym timezone = "int \<Rightarrow> bool \<Rightarrow> int"

definition LocalTime :: "timezone \<Rightarrow> int \<Rightarrow> int" where
  "LocalTime tz t = t + tz t True"

definition UTC :: "timezone \<Rightarrow> int \<Rightarrow> int" where
  "UTC tz t = t - tz t False"

definition msPerDay :: int where
  "msPerDay = 86400000"

definition setDatePlus7 :: "timezone \<Rightarrow> nat \<Rightarrow> nat" where
  "setDatePlus7 tz now = nat (UTC tz (LocalTime tz (int now) + 7 * msPerDay))"

definition generateTokens :: "timezone \<Rightarrow> AuthService \<Rightarrow> nat \<Rightarrow> store \<Rightarrow> nat \<Rightarrow> string \<Rightarrow> (error + AuthTokens) \<times> store" where
  "generateTokens tz cfg now st uid em =
     (let access = jwt_sign uid em (jwtSecret cfg) (jwtExpiresIn cfg) now;
          refresh = jwt_sign uid em (jwtRefreshSecret cfg) (jwtRefreshExpiresIn cfg) now;
          ex = setDatePlus7 tz now
      in case refreshToken_create st uid refresh ex of
           Inl e \<Rightarrow> (Inl (Thrown e), st)
         | Inr st' \<Rightarrow> (Inr \<lparr>accessToken = access, refreshToken' = refresh\<rparr>, st'))"

definition register :: "timezone \<Rightarrow> AuthService \<Rightarrow> nat \<Rightarrow> string \<Rightarrow> store \<Rightarrow> string \<Rightarrow> string \<Rightarrow> (error + AuthTokens) \<times> store" where
  "register tz cfg now salt st em pw =
     (case user_findUnique_email st em of
        Some existingUser \<Rightarrow> (Inl (ServiceError ''User already exists'' 409 None), st)
      | None \<Rightarrow>
          (case user_create st em (bcrypt_hash pw (bcryptRounds cfg) salt) now of
             Inl e \<Rightarrow> (Inl (Thrown e), st)
           | Inr (user, st') \<Rightarrow> generateTokens tz cfg now st' (user_id user) (user_email user)))"

definition login :: "timezone \<Rightarrow> AuthService \<Rightarrow> nat \<Rightarrow> store \<Rightarrow> string \<Rightarrow> string \<Rightarrow> (error + AuthTokens) \<times> store" where
  "login tz cfg now st em pw =
     (case user_findUnique_email st em of
        None \<Rightarrow> (Inl (ServiceError ''Invalid email or password'' 401 None), st)
      | Some user \<Rightarrow>
          if \<not> bcrypt_compare pw (password user)
          then (Inl (ServiceError ''Invalid email or password'' 401 None), st)
          else generateTokens tz cfg now st (user_id user) (user_email user))"

text \<open>The body of the \<open>try\<close> block of \<open>refreshToken\<close>, and the method with its \<open>catch\<close>.\<close>

definition refreshToken_try :: "timezone \<Rightarrow> AuthService \<Rightarrow> nat \<Rightarrow> store \<Rightarrow> jwt \<Rightarrow> (error + AuthTokens) \<times> store" where
  "refreshToken_try tz cfg now st tok =
     (case jwt_verify tok (jwtRefreshSecret cfg) now of
        Inl e \<Rightarrow> (Inl (Thrown e), st)
      | Inr decoded \<Rightarrow>
          (case refreshToken_findUnique st tok of
             None \<Rightarrow> (Inl (ServiceError ''Invalid refresh token'' 401 None), st)
           | Some (storedToken, storedUser) \<Rightarrow>
               if expiresAt storedToken < now
               then (Inl (ServiceError ''Invalid refresh token'' 401 None), st)
               else
                 (case storedUser of
                    None \<Rightarrow> (Inl (Thrown TypeError), st)
                  | Some user \<Rightarrow>
                      (case generateTokens tz cfg now st (user_id user) (user_email user) of
                         (Inl e, st1) \<Rightarrow> (Inl e, st1)
                       | (Inr tokens, st1) \<Rightarrow>
                           (case refreshToken_delete st1 (rt_id storedToken) of
                              Inl e \<Rightarrow> (Inl (Thrown e), st1)
                            | Inr st2 \<Rightarrow> (Inr tokens, st2))))))"

definition refreshToken :: "timezone \<Rightarrow> AuthService \<Rightarrow> nat \<Rightarrow> store \<Rightarrow> jwt \<Rightarrow> (error + AuthTokens) \<times> store" where
  "refreshToken tz cfg now st tok =
     (case refreshToken_try tz cfg now st tok of
        (Inl (ServiceError m s c), st') \<Rightarrow> (Inl (ServiceError m s c), st')
      | (Inl (Thrown e), st') \<Rightarrow> (Inl (ServiceError ''Invalid refresh token'' 401 (Some e)), st')
      | (Inr tokens, st') \<Rightarrow> (Inr tokens, st'))"

definition logout :: "store \<Rightarrow> jwt \<Rightarrow> (error + unit) \<times> store" where
  "logout st tok = (Inr (), refreshToken_deleteMany st tok)"

definition validateToken_try :: "AuthService \<Rightarrow> nat \<Rightarrow> store \<Rightarrow> jwt \<Rightarrow> error + JWTPayload" where
  "validateToken_try cfg now st tok =
     (case jwt_verify tok (jwtSecret cfg) now of
        Inl e \<Rightarrow> Inl (Thrown e)
      | Inr decoded \<Rightarrow>
          (case user_findUnique_id st (userId decoded) of
             None \<Rightarrow> Inl (ServiceError ''User not found'' 404 None)
           | Some user \<Rightarrow> Inr decoded))"

definition validateToken :: "AuthService \<Rightarrow> nat \<Rightarrow> store \<Rightarrow> jwt \<Rightarrow> error + JWTPayload" where
  "validateToken cfg now st tok =
     (case validateToken_try cfg now st tok of
        Inl (ServiceError m s c) \<Rightarrow> Inl (ServiceError m s c)
      | Inl (Thrown e) \<Rightarrow> Inl (ServiceError ''Invalid token'' 401 (Some e))
      | Inr decoded \<Rightarrow> Inr decoded)"

text \<open>
  \<open>getUserById\<close> is declared to return \<open>User | null\<close>; the \<open>select\<close> of the query keeps
  the four fields of \<open>User\<close> and drops the password.
\<close>

definition getUserById :: "store \<Rightarrow> nat \<Rightarrow> error + User option" where
  "getUserById st uid =
     (case user_findUnique_id st uid of
        None \<Rightarrow> Inl (ServiceError ''User not found'' 404 None)
      | Some user \<Rightarrow> Inr (Some (User.truncate user)))"

text \<open>
  Modelled from the spec: the schema, which is not part of the sources, makes the
  deletion of a user cascade to the refresh tokens the user owns. \<open>deleteUser\<close> itself
  is the one call of \<open>prisma.user.delete\<close>.
\<close>

definition user_delete :: "store \<Rightarrow> nat \<Rightarrow> thrown + store" where
  "user_delete st uid =
     (if uid \<notin> set (map user_id (users st)) then Inl RecordNotFound
      else Inr (st\<lparr>users := filter (\<lambda>u. user_id u \<noteq> uid) (users st),
                     refreshTokens := filter (\<lambda>r. rt_userId r \<noteq> uid) (refreshTokens st)\<rparr>))"

definition deleteUser :: "store \<Rightarrow> nat \<Rightarrow> (error + unit) \<times> store" where
  "deleteUser st uid =
     (case user_delete st uid of
        Inl e \<Rightarrow> (Inl (Thrown e), st)
      | Inr st' \<Rightarrow> (Inr (), st'))"

subsection \<open>The rotation as the specification words it\<close>

text \<open>
  The specification describes a successful refresh as: delete the consumed record, mint
  a new pair, persist the new refresh record. \<open>refreshToken_spec\<close> follows these words;
  it differs from \<open>refreshToken\<close> only in the place of the deletion.
\<close>

definition refreshToken_spec_try :: "timezone \<Rightarrow> AuthService \<Rightarrow> nat \<Rightarrow> store \<Rightarrow> jwt \<Rightarrow> (error + AuthTokens) \<times> store" where
  "refreshToken_spec_try tz cfg now st tok =
     (case jwt_verify tok (jwtRefreshSecret cfg) now of
        Inl e \<Rightarrow> (Inl (Thrown e), st)
      | Inr decoded \<Rightarrow>
          (case refreshToken_findUnique st tok of
             None \<Rightarrow> (Inl (ServiceError ''Invalid refresh token'' 401 None), st)
           | Some (storedToken, storedUser) \<Rightarrow>
               if expiresAt storedToken < now
               then (Inl (ServiceError ''Invalid refresh token'' 401 None), st)
               else
                 (case storedUser of
                    None \<Rightarrow> (Inl (Thrown TypeError), st)
                  | Some user \<Rightarrow>
                      (case refreshToken_delete st (rt_id storedToken) of
                         Inl e \<Rightarrow> (Inl (Thrown e), st)
                       | Inr st1 \<Rightarrow> generateTokens tz cfg now st1 (user_id user) (user_email user)))))"

definition refreshToken_spec :: "timezone \<Rightarrow> AuthService \<Rightarrow> nat \<Rightarrow> store \<Rightarrow> jwt \<Rightarrow> (error + AuthTokens) \<times> store" where
  "refreshToken_spec tz cfg now st tok =
     (case refreshToken_spec_try tz cfg now st tok of
        (Inl (ServiceError m s c), st') \<Rightarrow> (Inl (ServiceError m s c), st')
      | (Inl (Thrown e), st') \<Rightarrow> (Inl (ServiceError ''Invalid refresh token'' 401 (Some e)), st')
      | (Inr tokens, st') \<Rightarrow> (Inr tokens, st'))"

subsection \<open>Consistent stores\<close>

text \<open>
  What the database guarantees of every state the service can reach: the unique columns
  hold no value twice, generated identifiers lie below the counters, and every refresh
  token belongs to a stored user.
\<close>

definition store_ok :: "store \<Rightarrow> bool" where
  "store_ok st \<longleftrightarrow>
     distinct (map user_id (users st)) \<and>
     distinct (map user_email (users st)) \<and>
     distinct (map rt_id (refreshTokens st)) \<and>
     distinct (map token (refreshTokens st)) \<and>
     (\<forall>u \<in> set (users st). user_id u < nextUserId st) \<and>
     (\<forall>r \<in> set (refreshTokens st). rt_id r < nextTokenId st) \<and>
     (\<forall>r \<in> set (refreshTokens st). rt_userId r \<in> set (map user_id (users st)))"

text \<open>
  The states the service can reach from the empty store, by any of its methods,
  whether the call returns or throws.
\<close>

inductive reachable :: "store \<Rightarrow> bool" where
  reachable_empty: "reachable emptyStore"
| reachable_register:
    "reachable st \<Longrightarrow> register tz cfg now salt st em pw = (res, st') \<Longrightarrow> reachable st'"
| reachable_login:
    "reachable st \<Longrightarrow> login tz cfg now st em pw = (res, st') \<Longrightarrow> reachable st'"
| reachable_refreshToken:
    "reachable st \<Longrightarrow> refreshToken tz cfg now st tok = (res, st') \<Longrightarrow> reachable st'"
| reachable_logout:
    "reachable st \<Longrightarrow> logout st tok = (res', st') \<Longrightarrow> reachable st'"
| reachable_deleteUser:
    "reachable st \<Longrightarrow> deleteUser st uid = (res', st') \<Longrightarrow> reachable st'"

text \<open>
  \<open>issued_before n st\<close>: every stored refresh token is a signed token whose issued-at
  second lies before \<open>n\<close>.
\<close>

definition issued_before :: "nat \<Rightarrow> store \<Rightarrow> bool" where
  "issued_before n st =
     list_all (\<lambda>r. case token r of JWT p k \<Rightarrow> iat p < n | NotJWT s \<Rightarrow> False) (refreshTokens st)"

text \<open>The HTTP status codes behind the error kinds of the specification.\<close>

definition Unauthenticated :: nat where
  "Unauthenticated = 401"

definition NotFound :: nat where
  "NotFound = 404"

definition Conflict :: nat where
  "Conflict = 409"

subsection \<open>Example data\<close>

text \<open>
  A process in the zone UTC, a service with the default lifetimes (15 minutes, 7 days),
  and the store that \<open>register\<close> leaves when \<open>a@x\<close> signs up at millisecond 5000 with an
  empty store: one user and the refresh token \<open>exampleRT\<close> issued to it.
\<close>

definition utcZone :: timezone where
  "utcZone t isUTC = 0"


definition exampleService :: AuthService where
  "exampleService =
     \<lparr>jwtSecret = ''a'', jwtRefreshSecret = ''r'', jwtExpiresIn = 900,
      jwtRefreshExpiresIn = 604800, bcryptRounds = 10\<rparr>"

definition exampleAT :: jwt where
  "exampleAT = JWT \<lparr>userId = 0, email = ''a@x'', iat = 5, exp = 905\<rparr> ''a''"

definition exampleRT :: jwt where
  "exampleRT = JWT \<lparr>userId = 0, email = ''a@x'', iat = 5, exp = 604805\<rparr> ''r''"

definition exampleUser :: UserRow where
  "exampleUser =
     \<lparr>user_id = 0, user_email = ''a@x'', createdAt = 5000, updatedAt = 5000,
      password = Bcrypt 10 ''s'' ''pw''\<rparr>"

definition exampleStore :: store where
  "exampleStore =
     \<lparr>users = [exampleUser],
      refreshTokens = [\<lparr>rt_id = 0, rt_userId = 0, token = exampleRT, expiresAt = 604805000\<rparr>],
      nextUserId = 1, nextTokenId = 1\<rparr>"

text \<open>
  A store whose only refresh token carries claims (user 7, \<open>old@x\<close>) that differ from
  the user row it belongs to (user 0, \<open>a@x\<close>).
\<close>

definition staleRT :: jwt where
  "staleRT = JWT \<lparr>userId = 7, email = ''old@x'', iat = 5, exp = 604805\<rparr> ''r''"

definition staleStore :: store where
  "staleStore =
     \<lparr>users = [exampleUser],
      refreshTokens = [\<lparr>rt_id = 0, rt_userId = 0, token = staleRT, expiresAt = 604805000\<rparr>],
      nextUserId = 1, nextTokenId = 1\<rparr>"

text \<open>
  The tokens and the store after \<open>exampleRT\<close> has been refreshed at millisecond 6000.
\<close>

definition exampleAT2 :: jwt where
  "exampleAT2 = JWT \<lparr>userId = 0, email = ''a@x'', iat = 6, exp = 906\<rparr> ''a''"

definition exampleRT2 :: jwt where
  "exampleRT2 = JWT \<lparr>userId = 0, email = ''a@x'', iat = 6, exp = 604806\<rparr> ''r''"

definition rotatedStore :: store where
  "rotatedStore =
     \<lparr>users = [exampleUser],
      refreshTokens = [\<lparr>rt_id = 1, rt_userId = 0, token = exampleRT2, expiresAt = 604806000\<rparr>],
      nextUserId = 1, nextTokenId = 2\<rparr>"

text \<open>
  The store after \<open>a@x\<close> has logged in at millisecond 6000 instead: a second refresh
  token beside the first.
\<close>

definition loggedInStore :: store where
  "loggedInStore =
     \<lparr>users = [exampleUser],
      refreshTokens =
        [\<lparr>rt_id = 0, rt_userId = 0, token = exampleRT, expiresAt = 604805000\<rparr>,
         \<lparr>rt_id = 1, rt_userId = 0, token = exampleRT2, expiresAt = 604806000\<rparr>],
      nextUserId = 1, nextTokenId = 2\<rparr>"

text \<open>
  The store right after the new record of that refresh has been created, before the
  consumed one is deleted, is \<open>loggedInStore\<close> as well. What the rotation worded by the
  specification leaves when \<open>exampleRT\<close> is refreshed at millisecond 5500:
\<close>

definition respunStore :: store where
  "respunStore =
     \<lparr>users = [exampleUser],
      refreshTokens = [\<lparr>rt_id = 1, rt_userId = 0, token = exampleRT, expiresAt = 604805500\<rparr>],
      nextUserId = 1, nextTokenId = 2\<rparr>"

section \<open>Properties\<close>

subsection \<open>The store stays consistent\<close>

lemma store_ok_emptyStore: "store_ok emptyStore"
  by (simp add: store_ok_def emptyStore_def)

lemma find_None_conv: "find P xs = None \<longleftrightarrow> (\<forall>x\<in>set xs. \<not> P x)"
  by (auto simp: find_None_iff)

lemma find_SomeD: "find P xs = Some x \<Longrightarrow> x \<in> set xs \<and> P x"
  by (auto simp: find_Some_iff)

text \<open>What a call of \<open>generateTokens\<close> that succeeds has done, and what one that fails.\<close>

lemma generateTokens_Inr:
  "generateTokens tz cfg now st uid em = (Inr toks, st') \<longleftrightarrow>
     jwt_sign uid em (jwtRefreshSecret cfg) (jwtRefreshExpiresIn cfg) now
       \<notin> set (map token (refreshTokens st)) \<and>
     uid \<in> set (map user_id (users st)) \<and>
     toks = \<lparr>accessToken = jwt_sign uid em (jwtSecret cfg) (jwtExpiresIn cfg) now,
             refreshToken' = jwt_sign uid em (jwtRefreshSecret cfg) (jwtRefreshExpiresIn cfg) now\<rparr> \<and>
     st' = st\<lparr>refreshTokens := refreshTokens st @
                [\<lparr>rt_id = nextTokenId st, rt_userId = uid,
                  token = jwt_sign uid em (jwtRefreshSecret cfg) (jwtRefreshExpiresIn cfg) now,
                  expiresAt = setDatePlus7 tz now\<rparr>],
              nextTokenId := Suc (nextTokenId st)\<rparr>"
  by (auto simp: generateTokens_def refreshToken_create_def Let_def)

lemma generateTokens_Inl:
  "generateTokens tz cfg now st uid em = (Inl e, st') \<Longrightarrow> st' = st \<and> (\<exists>t. e = Thrown t)"
  by (auto simp: generateTokens_def refreshToken_create_def Let_def split: if_splits)

text \<open>The path through \<open>refreshToken\<close> that returns tokens.\<close>

lemma refreshToken_Inr:
  "refreshToken tz cfg now st tok = (Inr toks, st') \<Longrightarrow>
     \<exists>decoded r u st1.
       jwt_verify tok (jwtRefreshSecret cfg) now = Inr decoded \<and>
       find (\<lambda>r. token r = tok) (refreshTokens st) = Some r \<and>
       user_findUnique_id st (rt_userId r) = Some u \<and>
       \<not> expiresAt r < now \<and>
       generateTokens tz cfg now st (user_id u) (user_email u) = (Inr toks, st1) \<and>
       refreshToken_delete st1 (rt_id r) = Inr st'"
  unfolding refreshToken_def refreshToken_try_def refreshToken_findUnique_def
  by (auto split: sum.splits option.splits if_splits prod.splits error.splits)

lemma refreshToken_delete_after_generate:
  assumes "find (\<lambda>r. token r = tok) (refreshTokens st) = Some r"
    and "generateTokens tz cfg now st uid em = (Inr toks, st1)"
  shows "\<exists>st2. refreshToken_delete st1 (rt_id r) = Inr st2"
  using assms by (auto simp: generateTokens_Inr refreshToken_delete_def dest!: find_SomeD)

text \<open>Every failure of \<open>refreshToken\<close> is the same 401, and leaves the store as it was.\<close>

lemma refreshToken_Inl:
  "refreshToken tz cfg now st tok = (Inl e, st') \<Longrightarrow>
     st' = st \<and> (\<exists>c. e = ServiceError ''Invalid refresh token'' 401 c)"
  unfolding refreshToken_def refreshToken_try_def refreshToken_findUnique_def
  by (auto split: sum.splits option.splits if_splits prod.splits error.splits
      dest: generateTokens_Inl refreshToken_delete_after_generate)

lemma store_ok_generateTokens:
  "store_ok st \<Longrightarrow> generateTokens tz cfg now st uid em = (res, st') \<Longrightarrow> store_ok st'"
  by (cases res) (auto simp: generateTokens_Inr store_ok_def dest: generateTokens_Inl)

lemma store_ok_user_create:
  "store_ok st \<Longrightarrow> user_create st em h now = Inr (u, st') \<Longrightarrow> store_ok st'"
  by (fastforce simp: user_create_def store_ok_def Let_def less_Suc_eq split: if_splits)

lemma store_ok_register:
  "store_ok st \<Longrightarrow> register tz cfg now salt st em pw = (res, st') \<Longrightarrow> store_ok st'"
  unfolding register_def
  by (auto split: option.splits sum.splits dest: store_ok_user_create store_ok_generateTokens)

lemma store_ok_login:
  "store_ok st \<Longrightarrow> login tz cfg now st em pw = (res, st') \<Longrightarrow> store_ok st'"
  unfolding login_def
  by (auto split: option.splits if_splits dest: store_ok_generateTokens)

lemma store_ok_refreshToken_delete:
  "store_ok st \<Longrightarrow> refreshToken_delete st i = Inr st' \<Longrightarrow> store_ok st'"
  by (auto simp: refreshToken_delete_def store_ok_def distinct_map_filter split: if_splits)

lemma store_ok_refreshToken:
  assumes "store_ok st" and "refreshToken tz cfg now st tok = (res, st')"
  shows "store_ok st'"
proof (cases res)
  case (Inl e)
  with assms show ?thesis by (auto dest: refreshToken_Inl)
next
  case (Inr toks)
  with assms(2) have "refreshToken tz cfg now st tok = (Inr toks, st')" by simp
  from refreshToken_Inr [OF this] obtain r :: RefreshToken and u :: UserRow and st1 where
    "generateTokens tz cfg now st (user_id u) (user_email u) = (Inr toks, st1)"
    "refreshToken_delete st1 (rt_id r) = Inr st'"
    by blast
  with assms(1) show ?thesis
    by (blast intro: store_ok_generateTokens store_ok_refreshToken_delete)
qed

lemma store_ok_logout:
  "store_ok st \<Longrightarrow> logout st tok = (res, st') \<Longrightarrow> store_ok st'"
  by (auto simp: logout_def refreshToken_deleteMany_def store_ok_def distinct_map_filter)

lemma store_ok_deleteUser:
  "store_ok st \<Longrightarrow> deleteUser st uid = (res, st') \<Longrightarrow> store_ok st'"
  by (fastforce simp: deleteUser_def user_delete_def store_ok_def distinct_map_filter
      split: if_splits)

text \<open>Every state the service can reach is consistent.\<close>

lemma reachable_store_ok: "reachable st \<Longrightarrow> store_ok st"
proof (induction rule: reachable.induct)
  case reachable_empty
  show ?case by (rule store_ok_emptyStore)
next
  case (reachable_register st tz cfg now salt em pw res st')
  then show ?case by (blast intro: store_ok_register)
next
  case (reachable_login st tz cfg now em pw res st')
  then show ?case by (blast intro: store_ok_login)
next
  case (reachable_refreshToken st tz cfg now tok res st')
  then show ?case by (blast intro: store_ok_refreshToken)
next
  case (reachable_logout st tok res' st')
  then show ?case by (blast intro: store_ok_logout)
next
  case (reachable_deleteUser st uid res' st')
  then show ?case by (blast intro: store_ok_deleteUser)
qed

subsection \<open>logout\<close>

text \<open>
  C9. For every token string, \<open>logout\<close> deletes all stored refresh-token records whose
  token equals that string (and no other record, and no user) and returns success;
  when no record matches, the store is left unchanged; a second \<open>logout\<close> with the same
  string does what the first did and nothing more. \<open>logout\<close> never returns an error.
\<close>

theorem logout_deletes_matching_records:
  "fst (logout st tok) = Inr () \<and>
   refreshTokens (snd (logout st tok)) = filter (\<lambda>r. token r \<noteq> tok) (refreshTokens st) \<and>
   users (snd (logout st tok)) = users st \<and>
   (tok \<notin> set (map token (refreshTokens st)) \<longrightarrow> snd (logout st tok) = st) \<and>
   logout (snd (logout st tok)) tok = logout st tok"
proof -
  have kept: "tok \<notin> set (map token (refreshTokens st)) \<Longrightarrow>
      filter (\<lambda>r. token r \<noteq> tok) (refreshTokens st) = refreshTokens st"
    by (induction "refreshTokens st") (auto simp: filter_id_conv)
  show ?thesis
    by (simp add: logout_def refreshToken_deleteMany_def kept)
qed

theorem logout_witness:
  "exampleRT \<in> set (map token (refreshTokens exampleStore)) \<and>
   logout exampleStore exampleRT = (Inr (), exampleStore\<lparr>refreshTokens := []\<rparr>) \<and>
   exampleRT \<notin> set (map token (refreshTokens (exampleStore\<lparr>refreshTokens := []\<rparr>))) \<and>
   logout (exampleStore\<lparr>refreshTokens := []\<rparr>) exampleRT =
     (Inr (), exampleStore\<lparr>refreshTokens := []\<rparr>)"
  using logout_deletes_matching_records [of "exampleStore\<lparr>refreshTokens := []\<rparr>" exampleRT]
  by (simp add: logout_def refreshToken_deleteMany_def exampleStore_def)

subsection \<open>Lookups in the store\<close>

lemma user_findUnique_id_None:
  "user_findUnique_id st uid = None \<longleftrightarrow> uid \<notin> user_id ` set (users st)"
  by (auto simp: user_findUnique_id_def find_None_conv)

lemma user_findUnique_id_Some:
  "user_findUnique_id st uid = Some u \<Longrightarrow> u \<in> set (users st) \<and> user_id u = uid"
  by (auto simp: user_findUnique_id_def dest: find_SomeD)

lemma user_findUnique_email_None:
  "user_findUnique_email st em = None \<longleftrightarrow> em \<notin> user_email ` set (users st)"
  by (auto simp: user_findUnique_email_def find_None_conv)

lemma user_findUnique_email_Some:
  "user_findUnique_email st em = Some u \<Longrightarrow> u \<in> set (users st) \<and> user_email u = em"
  by (auto simp: user_findUnique_email_def dest: find_SomeD)

subsection \<open>register: a used email\<close>

lemma register_Conflict:
  "em \<in> set (map user_email (users st)) \<Longrightarrow>
     register tz cfg now salt st em pw = (Inl (ServiceError ''User already exists'' Conflict None), st)"
  by (cases "user_findUnique_email st em")
    (auto simp: register_def Conflict_def user_findUnique_email_None)

subsection \<open>login: the two failures\<close>

text \<open>
  C6. For every email and password: \<open>login\<close> with an email that no stored user has
  fails with Unauthenticated, and so does \<open>login\<close> with the email of a stored user and
  a password other than the one its hash was made of. Both calls return the same error
  value (status 401, message \<open>Invalid email or password\<close>, no code) and leave the store
  as it was, so the caller cannot tell them apart.
\<close>

theorem login_failures_indistinguishable:
  "(em \<notin> set (map user_email (users st)) \<longrightarrow>
      login tz cfg now st em pw =
        (Inl (ServiceError ''Invalid email or password'' Unauthenticated None), st)) \<and>
   (\<forall>u. user_findUnique_email st em = Some u \<and> hash_plain (password u) \<noteq> pw \<longrightarrow>
      login tz cfg now st em pw =
        (Inl (ServiceError ''Invalid email or password'' Unauthenticated None), st))"
  by (auto simp: login_def bcrypt_compare_def Unauthenticated_def
      user_findUnique_email_None [symmetric])

theorem login_failures_witness:
  "''b@x'' \<notin> set (map user_email (users exampleStore)) \<and>
   login utcZone exampleService 9000 exampleStore ''b@x'' ''pw'' =
     (Inl (ServiceError ''Invalid email or password'' 401 None), exampleStore) \<and>
   user_findUnique_email exampleStore ''a@x'' = Some exampleUser \<and>
   hash_plain (password exampleUser) \<noteq> ''pw2'' \<and>
   login utcZone exampleService 9000 exampleStore ''a@x'' ''pw2'' =
     (Inl (ServiceError ''Invalid email or password'' 401 None), exampleStore)"
  using login_failures_indistinguishable [of "''b@x''" exampleStore utcZone exampleService 9000 "''pw''"]
    login_failures_indistinguishable [of "''a@x''" exampleStore utcZone exampleService 9000 "''pw2''"]
  by (simp add: exampleStore_def exampleUser_def user_findUnique_email_def Unauthenticated_def)

subsection \<open>validateToken\<close>

text \<open>
  C7. For every token string, \<open>validateToken\<close> fails with Unauthenticated (401,
  \<open>Invalid token\<close>) when the verification of signature and expiry fails; it fails
  with NotFound (404, \<open>User not found\<close>) when the token verifies and no stored user
  has the user id of its payload; otherwise it returns the decoded payload.
\<close>

theorem validateToken_results:
  "(\<forall>e. jwt_verify tok (jwtSecret cfg) now = Inl e \<longrightarrow>
      validateToken cfg now st tok = Inl (ServiceError ''Invalid token'' Unauthenticated (Some e))) \<and>
   (\<forall>p. jwt_verify tok (jwtSecret cfg) now = Inr p \<and> userId p \<notin> set (map user_id (users st)) \<longrightarrow>
      validateToken cfg now st tok = Inl (ServiceError ''User not found'' NotFound None)) \<and>
   (\<forall>p. jwt_verify tok (jwtSecret cfg) now = Inr p \<and> userId p \<in> set (map user_id (users st)) \<longrightarrow>
      validateToken cfg now st tok = Inr p)"
  by (auto simp: validateToken_def validateToken_try_def
      Unauthenticated_def NotFound_def user_findUnique_id_None [symmetric]
      split: option.splits)

theorem validateToken_witness:
  "jwt_verify exampleRT (jwtSecret exampleService) 6000 = Inl JsonWebTokenError \<and>
   validateToken exampleService 6000 exampleStore exampleRT =
     Inl (ServiceError ''Invalid token'' 401 (Some JsonWebTokenError)) \<and>
   jwt_verify exampleAT (jwtSecret exampleService) 905000 = Inl TokenExpiredError \<and>
   validateToken exampleService 905000 exampleStore exampleAT =
     Inl (ServiceError ''Invalid token'' 401 (Some TokenExpiredError)) \<and>
   jwt_verify exampleAT (jwtSecret exampleService) 6000 = Inr (claims exampleAT) \<and>
   userId (claims exampleAT) \<notin> set (map user_id (users emptyStore)) \<and>
   validateToken exampleService 6000 emptyStore exampleAT =
     Inl (ServiceError ''User not found'' 404 None) \<and>
   userId (claims exampleAT) \<in> set (map user_id (users exampleStore)) \<and>
   validateToken exampleService 6000 exampleStore exampleAT =
     Inr \<lparr>userId = 0, email = ''a@x'', iat = 5, exp = 905\<rparr>"
  using validateToken_results [of exampleRT exampleService 6000 exampleStore]
    validateToken_results [of exampleAT exampleService 905000 exampleStore]
    validateToken_results [of exampleAT exampleService 6000 emptyStore]
    validateToken_results [of exampleAT exampleService 6000 exampleStore]
  by (simp add: jwt_verify_def exampleService_def exampleRT_def exampleAT_def exampleStore_def
      exampleUser_def emptyStore_def Unauthenticated_def NotFound_def)

subsection \<open>getUserById\<close>

text \<open>
  C8, as claimed: for an id that no stored user has, \<open>getUserById\<close> returns an absent
  result and not an error. The code throws instead: with no user in the store, the
  call for id 7 is the error 404 and not the absent result \<open>Inr None\<close>.
\<close>

theorem getUserById_absent_counterexample:
  "user_findUnique_id emptyStore 7 = None \<and>
   getUserById emptyStore 7 = Inl (ServiceError ''User not found'' 404 None) \<and>
   getUserById emptyStore 7 \<noteq> Inr None"
  by (simp add: getUserById_def user_findUnique_id_def emptyStore_def)

text \<open>
  C8, amended. For every id, \<open>getUserById\<close> passes the lookup of the store through:
  when a user with that id is stored, it returns that user's id, email and the two
  timestamps, without the password hash; when none is stored, it fails with NotFound
  (404, \<open>User not found\<close>).
\<close>

theorem getUserById_found_or_NotFound:
  "(\<forall>u. user_findUnique_id st uid = Some u \<longrightarrow>
      getUserById st uid =
        Inr (Some \<lparr>user_id = user_id u, user_email = user_email u,
                    createdAt = createdAt u, updatedAt = updatedAt u\<rparr>)) \<and>
   (uid \<in> set (map user_id (users st)) \<longrightarrow>
      (\<exists>u \<in> set (users st). user_id u = uid \<and> user_findUnique_id st uid = Some u)) \<and>
   (uid \<notin> set (map user_id (users st)) \<longrightarrow>
      getUserById st uid = Inl (ServiceError ''User not found'' NotFound None))"
proof -
  have found: "uid \<in> set (map user_id (users st)) \<Longrightarrow>
      \<exists>u \<in> set (users st). user_id u = uid \<and> user_findUnique_id st uid = Some u"
    by (cases "user_findUnique_id st uid")
      (auto simp: user_findUnique_id_None dest: user_findUnique_id_Some)
  have absent: "uid \<notin> set (map user_id (users st)) \<Longrightarrow>
      getUserById st uid = Inl (ServiceError ''User not found'' NotFound None)"
    by (simp add: getUserById_def NotFound_def user_findUnique_id_None [symmetric])
  have present: "\<And>u. user_findUnique_id st uid = Some u \<Longrightarrow>
      getUserById st uid =
        Inr (Some \<lparr>user_id = user_id u, user_email = user_email u,
                    createdAt = createdAt u, updatedAt = updatedAt u\<rparr>)"
    by (simp add: getUserById_def User.truncate_def)
  from found absent present show ?thesis by blast
qed

theorem getUserById_witness:
  "user_findUnique_id exampleStore 0 = Some exampleUser \<and>
   0 \<in> set (map user_id (users exampleStore)) \<and>
   getUserById exampleStore 0 =
     Inr (Some \<lparr>user_id = 0, user_email = ''a@x'', createdAt = 5000, updatedAt = 5000\<rparr>) \<and>
   1 \<notin> set (map user_id (users exampleStore)) \<and>
   getUserById exampleStore 1 = Inl (ServiceError ''User not found'' 404 None)"
  using getUserById_found_or_NotFound [of exampleStore 0]
    getUserById_found_or_NotFound [of exampleStore 1]
  by (simp add: user_findUnique_id_def exampleStore_def exampleUser_def NotFound_def)

subsection \<open>Token Signer: round trip\<close>

text \<open>
  C5, as claimed: for every lifetime, a token verified immediately with the secret
  that signed it decodes to its payload. With the lifetime 0 the expiry is the second
  of issue, and the verification at that very instant fails.
\<close>

theorem sign_verify_zero_ttl_counterexample:
  "jwt_verify (jwt_sign 0 ''a@x'' ''a'' 0 5000) ''a'' 5000 = Inl TokenExpiredError"
  by (simp add: jwt_verify_def jwt_sign_def)

text \<open>
  C5, amended. For every payload (user id, email), secret and lifetime of at least one
  second: the token signed with that secret and lifetime, verified at the instant of
  signing with the same secret, decodes to the payload it was signed with (with
  issued-at and expiry added). For every lifetime, verifying it with any other secret
  fails, at whatever time.
\<close>

theorem sign_verify_roundtrip:
  "(0 < ttl \<longrightarrow>
      jwt_verify (jwt_sign uid em secret ttl now) secret now =
        Inr \<lparr>userId = uid, email = em, iat = now div 1000, exp = now div 1000 + ttl\<rparr>) \<and>
   (other \<noteq> secret \<longrightarrow>
      jwt_verify (jwt_sign uid em secret ttl now) other now' = Inl JsonWebTokenError)"
  by (simp add: jwt_verify_def jwt_sign_def)

theorem sign_verify_roundtrip_witness:
  "(0::nat) < 900 \<and>
   jwt_verify (jwt_sign 0 ''a@x'' ''a'' 900 5000) ''a'' 5000 =
     Inr \<lparr>userId = 0, email = ''a@x'', iat = 5, exp = 905\<rparr> \<and>
   ''r'' \<noteq> ''a'' \<and>
   jwt_verify (jwt_sign 0 ''a@x'' ''a'' 900 5000) ''r'' 5000 = Inl JsonWebTokenError"
  using sign_verify_roundtrip [of 900 0 "''a@x''" "''a''" 5000 "''r''" 5000]
  by simp

subsection \<open>Rotation\<close>

lemma generateTokens_record:
  assumes "generateTokens tz cfg now st uid em = (Inr toks, st')"
  shows "\<exists>n. refreshTokens st' = refreshTokens st @ [n] \<and> users st' = users st \<and>
           token n = refreshToken' toks \<and> expiresAt n = setDatePlus7 tz now \<and>
           rt_id n = nextTokenId st \<and> rt_userId n = uid \<and>
           token n \<notin> set (map token (refreshTokens st)) \<and>
           claims (refreshToken' toks) =
             \<lparr>userId = uid, email = em, iat = now div 1000,
              exp = now div 1000 + jwtRefreshExpiresIn cfg\<rparr> \<and>
           claims (accessToken toks) =
             \<lparr>userId = uid, email = em, iat = now div 1000,
              exp = now div 1000 + jwtExpiresIn cfg\<rparr>"
  using assms by (auto simp: generateTokens_Inr jwt_sign_def)

lemma refreshToken_unknown:
  assumes "find (\<lambda>r. token r = tok) (refreshTokens st) = None"
  shows "\<exists>c. refreshToken tz cfg now st tok =
           (Inl (ServiceError ''Invalid refresh token'' 401 c), st)"
  using assms
  by (cases "jwt_verify tok (jwtRefreshSecret cfg) now")
    (simp_all add: refreshToken_def refreshToken_try_def refreshToken_findUnique_def)

text \<open>The rows of the refresh-token table after a refresh that succeeded.\<close>

lemma refreshToken_rows:
  assumes "refreshToken tz cfg now st tok = (Inr toks, st')"
  shows "\<exists>r u n st1.
           find (\<lambda>r. token r = tok) (refreshTokens st) = Some r \<and>
           user_findUnique_id st (rt_userId r) = Some u \<and>
           generateTokens tz cfg now st (user_id u) (user_email u) = (Inr toks, st1) \<and>
           refreshTokens st1 = refreshTokens st @ [n] \<and>
           refreshToken_delete st1 (rt_id r) = Inr st' \<and>
           refreshTokens st' = filter (\<lambda>x. rt_id x \<noteq> rt_id r) (refreshTokens st @ [n]) \<and>
           users st' = users st \<and>
           token n = refreshToken' toks \<and> expiresAt n = setDatePlus7 tz now \<and>
           rt_id n = nextTokenId st \<and>
           token n \<notin> set (map token (refreshTokens st))"
proof -
  from refreshToken_Inr [OF assms] obtain r :: RefreshToken and u :: UserRow and st1 where
    r: "find (\<lambda>r. token r = tok) (refreshTokens st) = Some r"
    and u: "user_findUnique_id st (rt_userId r) = Some u"
    and g: "generateTokens tz cfg now st (user_id u) (user_email u) = (Inr toks, st1)"
    and d: "refreshToken_delete st1 (rt_id r) = Inr st'"
    by blast
  from generateTokens_record [OF g] obtain n :: RefreshToken where
    n: "refreshTokens st1 = refreshTokens st @ [n]" "users st1 = users st"
      "token n = refreshToken' toks" "expiresAt n = setDatePlus7 tz now"
      "rt_id n = nextTokenId st" "token n \<notin> set (map token (refreshTokens st))"
    by blast
  from d n(1,2) have
    "refreshTokens st' = filter (\<lambda>x. rt_id x \<noteq> rt_id r) (refreshTokens st @ [n])"
    "users st' = users st"
    by (auto simp: refreshToken_delete_def split: if_splits)
  with r u g d n show ?thesis by blast
qed

lemma refreshToken_consumed:
  assumes ok: "store_ok st" and succ: "refreshToken tz cfg now st tok = (Inr toks, st')"
  shows "tok \<notin> set (map token (refreshTokens st'))"
proof -
  from refreshToken_rows [OF succ] obtain r n :: RefreshToken where
    r: "find (\<lambda>r. token r = tok) (refreshTokens st) = Some r"
    and rows: "refreshTokens st' = filter (\<lambda>x. rt_id x \<noteq> rt_id r) (refreshTokens st @ [n])"
    and fresh: "token n \<notin> set (map token (refreshTokens st))"
    by blast
  from r have rin: "r \<in> set (refreshTokens st)" and rtok: "token r = tok"
    by (auto dest: find_SomeD)
  from ok have inj: "inj_on token (set (refreshTokens st))"
    by (simp add: store_ok_def distinct_map)
  show ?thesis
  proof
    assume "tok \<in> set (map token (refreshTokens st'))"
    then obtain x where x: "x \<in> set (refreshTokens st @ [n])" "rt_id x \<noteq> rt_id r" "token x = tok"
      using rows by (auto split: if_splits)
    show False
    proof (cases "x = n")
      case True
      with x(3) rtok have "token r = token n" by simp
      with rin have "token n \<in> token ` set (refreshTokens st)" by (metis imageI)
      with fresh show False by simp
    next
      case False
      with x(1) have "x \<in> set (refreshTokens st)" by simp
      with inj rin rtok x(3) have "x = r" by (auto dest: inj_onD)
      with x(2) show False by simp
    qed
  qed
qed

lemma refreshToken_persisted:
  assumes ok: "store_ok st" and succ: "refreshToken tz cfg now st tok = (Inr toks, st')"
  shows "\<exists>n \<in> set (refreshTokens st'). token n = refreshToken' toks \<and>
           expiresAt n = setDatePlus7 tz now \<and> n \<notin> set (refreshTokens st)"
proof -
  from refreshToken_rows [OF succ] obtain r n :: RefreshToken where
    r: "find (\<lambda>r. token r = tok) (refreshTokens st) = Some r"
    and rows: "refreshTokens st' = filter (\<lambda>x. rt_id x \<noteq> rt_id r) (refreshTokens st @ [n])"
    and n: "token n = refreshToken' toks" "expiresAt n = setDatePlus7 tz now"
      "rt_id n = nextTokenId st" "token n \<notin> set (map token (refreshTokens st))"
    by blast
  from r have "r \<in> set (refreshTokens st)" by (auto dest: find_SomeD)
  with ok have "rt_id r < nextTokenId st" by (simp add: store_ok_def)
  with n(3) have "rt_id n \<noteq> rt_id r" by simp
  with rows have "n \<in> set (refreshTokens st')" by simp
  moreover from n(4) have "n \<notin> set (refreshTokens st)" by auto
  ultimately show ?thesis using n(1,2) by blast
qed

subsection \<open>The example runs\<close>

lemmas run_defs = refreshToken_def refreshToken_try_def refreshToken_findUnique_def
  jwt_verify_def jwt_sign_def generateTokens_def refreshToken_create_def refreshToken_delete_def
  setDatePlus7_def LocalTime_def UTC_def msPerDay_def utcZone_def user_findUnique_id_def user_findUnique_email_def Let_def
  register_def login_def user_create_def bcrypt_hash_def bcrypt_compare_def

lemmas ex_defs = exampleService_def exampleAT_def exampleRT_def exampleUser_def exampleStore_def
  emptyStore_def exampleAT2_def exampleRT2_def rotatedStore_def

lemma store_ok_exampleStore: "store_ok exampleStore"
  by (simp add: store_ok_def exampleStore_def exampleUser_def)



lemma example_refresh:
  "refreshToken utcZone exampleService 6000 exampleStore exampleRT =
     (Inr \<lparr>accessToken = exampleAT2, refreshToken' = exampleRT2\<rparr>, rotatedStore)"
  by (simp add: run_defs ex_defs)

subsection \<open>refreshToken: a token is used once\<close>

text \<open>
  C2. For every refresh token string \<open>t\<close> and every consistent store: after a call
  of \<open>refreshToken\<close> with \<open>t\<close> has succeeded, a second call with the same \<open>t\<close>, at
  whatever time, fails with Unauthenticated (401, \<open>Invalid refresh token\<close>) and
  changes nothing.
\<close>

theorem refresh_twice_second_fails:
  assumes "store_ok st" and "refreshToken tz cfg now st tok = (Inr toks, st')"
  shows "\<exists>c. refreshToken tz' cfg now' st' tok =
           (Inl (ServiceError ''Invalid refresh token'' Unauthenticated c), st')"
proof -
  from refreshToken_consumed [OF assms]
  have "find (\<lambda>r. token r = tok) (refreshTokens st') = None"
    by (auto simp: find_None_conv)
  from refreshToken_unknown [OF this] show ?thesis
    by (simp add: Unauthenticated_def)
qed

theorem refresh_twice_witness:
  "store_ok exampleStore \<and>
   refreshToken utcZone exampleService 6000 exampleStore exampleRT =
     (Inr \<lparr>accessToken = exampleAT2, refreshToken' = exampleRT2\<rparr>, rotatedStore) \<and>
   refreshToken utcZone exampleService 7000 rotatedStore exampleRT =
     (Inl (ServiceError ''Invalid refresh token'' 401 None), rotatedStore)"
proof -
  have ok: "store_ok exampleStore"
    by (rule store_ok_exampleStore)
  have run: "refreshToken utcZone exampleService 6000 exampleStore exampleRT =
     (Inr \<lparr>accessToken = exampleAT2, refreshToken' = exampleRT2\<rparr>, rotatedStore)"
    by (rule example_refresh)
  from refresh_twice_second_fails [OF ok run, of utcZone 7000] ok run show ?thesis
    by (simp add: run_defs ex_defs Unauthenticated_def)
qed

subsection \<open>What register and login have done when they return tokens\<close>

lemma register_Inr:
  assumes "register tz cfg now salt st em pw = (Inr toks, st')"
  shows "\<exists>u st1. user_findUnique_email st em = None \<and>
           user_create st em (bcrypt_hash pw (bcryptRounds cfg) salt) now = Inr (u, st1) \<and>
           refreshTokens st1 = refreshTokens st \<and>
           users st1 = users st @ [u] \<and>
           user_id u = nextUserId st \<and> user_email u = em \<and>
           password u = bcrypt_hash pw (bcryptRounds cfg) salt \<and>
           generateTokens tz cfg now st1 (user_id u) (user_email u) = (Inr toks, st')"
  using assms unfolding register_def user_create_def
  by (auto simp: Let_def split: option.splits if_splits)




subsection \<open>The expiry of the stored record\<close>






subsection \<open>refreshToken mints from the stored user\<close>

text \<open>
  C10. On every successful \<open>refreshToken\<close> on a consistent store, a record with the
  presented token is stored and references a stored user, and both new tokens are
  signed over the id and email of that user row, with the secrets and lifetimes of the
  service at the time of the call. The claims decoded from the presented token do not
  enter the new tokens.
\<close>

theorem refresh_mints_from_stored_user:
  assumes ok: "store_ok st" and succ: "refreshToken tz cfg now st tok = (Inr toks, st')"
  shows "(\<exists>r \<in> set (refreshTokens st). token r = tok \<and>
            (\<exists>u \<in> set (users st). user_id u = rt_userId r)) \<and>
         (\<forall>r u. r \<in> set (refreshTokens st) \<and> token r = tok \<and>
                u \<in> set (users st) \<and> user_id u = rt_userId r \<longrightarrow>
            toks =
              \<lparr>accessToken = jwt_sign (user_id u) (user_email u) (jwtSecret cfg) (jwtExpiresIn cfg) now,
               refreshToken' =
                 jwt_sign (user_id u) (user_email u) (jwtRefreshSecret cfg) (jwtRefreshExpiresIn cfg) now\<rparr>)"
proof -
  from refreshToken_rows [OF succ] obtain r0 :: RefreshToken and u0 :: UserRow and st1 where
    r0: "find (\<lambda>r. token r = tok) (refreshTokens st) = Some r0"
    and u0: "user_findUnique_id st (rt_userId r0) = Some u0"
    and g: "generateTokens tz cfg now st (user_id u0) (user_email u0) = (Inr toks, st1)"
    by blast
  from r0 have r0in: "r0 \<in> set (refreshTokens st)" and r0tok: "token r0 = tok"
    by (auto dest: find_SomeD)
  from u0 have u0in: "u0 \<in> set (users st)" and u0id: "user_id u0 = rt_userId r0"
    by (auto dest: user_findUnique_id_Some)
  from g have toks: "toks =
      \<lparr>accessToken = jwt_sign (user_id u0) (user_email u0) (jwtSecret cfg) (jwtExpiresIn cfg) now,
       refreshToken' =
         jwt_sign (user_id u0) (user_email u0) (jwtRefreshSecret cfg) (jwtRefreshExpiresIn cfg) now\<rparr>"
    by (simp add: generateTokens_Inr)
  from ok have injt: "inj_on token (set (refreshTokens st))"
    and inju: "inj_on user_id (set (users st))"
    by (simp_all add: store_ok_def distinct_map)
  have uniq: "r = r0 \<and> u = u0"
    if "r \<in> set (refreshTokens st)" "token r = tok" "u \<in> set (users st)" "user_id u = rt_userId r"
    for r u
  proof -
    from injt that(1,2) r0in r0tok have "r = r0" by (auto dest: inj_onD)
    with that(4) u0id have "user_id u = user_id u0" by simp
    from inj_onD [OF inju this that(3) u0in] \<open>r = r0\<close> show ?thesis by simp
  qed
  from r0in r0tok u0in u0id have "\<exists>r \<in> set (refreshTokens st). token r = tok \<and>
            (\<exists>u \<in> set (users st). user_id u = rt_userId r)"
    by blast
  moreover from uniq toks have "\<forall>r u. r \<in> set (refreshTokens st) \<and> token r = tok \<and>
                u \<in> set (users st) \<and> user_id u = rt_userId r \<longrightarrow>
            toks =
              \<lparr>accessToken = jwt_sign (user_id u) (user_email u) (jwtSecret cfg) (jwtExpiresIn cfg) now,
               refreshToken' =
                 jwt_sign (user_id u) (user_email u) (jwtRefreshSecret cfg) (jwtRefreshExpiresIn cfg) now\<rparr>"
    by blast
  ultimately show ?thesis by blast
qed

lemma example_refresh_stale:
  "refreshToken utcZone exampleService 6000 staleStore staleRT =
     (Inr \<lparr>accessToken = exampleAT2, refreshToken' = exampleRT2\<rparr>, rotatedStore)"
  by (simp add: run_defs ex_defs staleRT_def staleStore_def)

lemma store_ok_staleStore: "store_ok staleStore"
  by (simp add: store_ok_def staleStore_def exampleUser_def)

theorem refresh_mints_witness:
  "store_ok staleStore \<and>
   refreshToken utcZone exampleService 6000 staleStore staleRT =
     (Inr \<lparr>accessToken = exampleAT2, refreshToken' = exampleRT2\<rparr>, rotatedStore) \<and>
   jwt_verify staleRT (jwtRefreshSecret exampleService) 6000 =
     Inr \<lparr>userId = 7, email = ''old@x'', iat = 5, exp = 604805\<rparr> \<and>
   map (\<lambda>r. (token r, rt_userId r)) (refreshTokens staleStore) = [(staleRT, 0)] \<and>
   map (\<lambda>u. (user_id u, user_email u)) (users staleStore) = [(0, ''a@x'')] \<and>
   exampleAT2 = jwt_sign 0 ''a@x'' (jwtSecret exampleService) (jwtExpiresIn exampleService) 6000 \<and>
   exampleRT2 =
     jwt_sign 0 ''a@x'' (jwtRefreshSecret exampleService) (jwtRefreshExpiresIn exampleService) 6000"
  using refresh_mints_from_stored_user [OF store_ok_staleStore example_refresh_stale]
    store_ok_staleStore example_refresh_stale
  by (simp add: ex_defs staleRT_def staleStore_def jwt_verify_def jwt_sign_def)

subsection \<open>The order of the rotation\<close>

text \<open>
  C1, as claimed: a refresh deletes the consumed record, then mints and persists, so
  that a failure partway does not leave the old token usable. In the code the new
  record is created first. Refreshing \<open>exampleRT\<close> within the second in which it was
  issued signs the very same token again: the code fails on the unique token column
  and leaves the store as it was, where the order of the claim would have succeeded;
  and the same old token is refreshed with success half a second later. In that
  successful call the new record is created beside the old one (\<open>loggedInStore\<close>) and
  the old one is deleted afterwards.
\<close>

theorem refresh_order_counterexample:
  "refreshToken utcZone exampleService 5500 exampleStore exampleRT =
     (Inl (ServiceError ''Invalid refresh token'' 401 (Some UniqueConstraintFailed)), exampleStore) \<and>
   refreshToken_spec utcZone exampleService 5500 exampleStore exampleRT =
     (Inr \<lparr>accessToken = exampleAT, refreshToken' = exampleRT\<rparr>, respunStore) \<and>
   refreshToken utcZone exampleService 6000 exampleStore exampleRT =
     (Inr \<lparr>accessToken = exampleAT2, refreshToken' = exampleRT2\<rparr>, rotatedStore) \<and>
   generateTokens utcZone exampleService 6000 exampleStore 0 ''a@x'' =
     (Inr \<lparr>accessToken = exampleAT2, refreshToken' = exampleRT2\<rparr>, loggedInStore) \<and>
   map token (refreshTokens loggedInStore) = [exampleRT, exampleRT2] \<and>
   refreshToken_delete loggedInStore 0 = Inr rotatedStore"
  by (simp add: run_defs refreshToken_spec_def refreshToken_spec_try_def ex_defs
      loggedInStore_def respunStore_def)

text \<open>
  C1, amended. For every call of \<open>refreshToken\<close> on a consistent store that succeeds:
  the new token pair is minted and its refresh record persisted in the store that
  still holds the consumed record, and the consumed record is deleted after that
  (create, then delete); in the end no record holds the presented token and a record
  holds the new refresh token. A call that fails leaves the store unchanged.
\<close>

theorem refresh_creates_then_deletes:
  assumes ok: "store_ok st"
  shows "(\<forall>toks st'. refreshToken tz cfg now st tok = (Inr toks, st') \<longrightarrow>
            (\<exists>r u st1.
               r \<in> set (refreshTokens st) \<and> token r = tok \<and>
               u \<in> set (users st) \<and> user_id u = rt_userId r \<and>
               generateTokens tz cfg now st (user_id u) (user_email u) = (Inr toks, st1) \<and>
               r \<in> set (refreshTokens st1) \<and>
               refreshToken' toks \<in> set (map token (refreshTokens st1)) \<and>
               refreshToken_delete st1 (rt_id r) = Inr st' \<and>
               tok \<notin> set (map token (refreshTokens st')) \<and>
               refreshToken' toks \<in> set (map token (refreshTokens st')))) \<and>
         (\<forall>e st'. refreshToken tz cfg now st tok = (Inl e, st') \<longrightarrow> st' = st)"
proof -
  have success: "\<exists>r u st1.
               r \<in> set (refreshTokens st) \<and> token r = tok \<and>
               u \<in> set (users st) \<and> user_id u = rt_userId r \<and>
               generateTokens tz cfg now st (user_id u) (user_email u) = (Inr toks, st1) \<and>
               r \<in> set (refreshTokens st1) \<and>
               refreshToken' toks \<in> set (map token (refreshTokens st1)) \<and>
               refreshToken_delete st1 (rt_id r) = Inr st' \<and>
               tok \<notin> set (map token (refreshTokens st')) \<and>
               refreshToken' toks \<in> set (map token (refreshTokens st'))"
    if succ: "refreshToken tz cfg now st tok = (Inr toks, st')" for toks st'
  proof -
    from refreshToken_rows [OF succ] obtain r n :: RefreshToken and u :: UserRow and st1 where
      r: "find (\<lambda>r. token r = tok) (refreshTokens st) = Some r"
      and u: "user_findUnique_id st (rt_userId r) = Some u"
      and g: "generateTokens tz cfg now st (user_id u) (user_email u) = (Inr toks, st1)"
      and rows1: "refreshTokens st1 = refreshTokens st @ [n]"
      and d: "refreshToken_delete st1 (rt_id r) = Inr st'"
      and n: "token n = refreshToken' toks"
      by blast
    from r have rin: "r \<in> set (refreshTokens st)" and rtok: "token r = tok"
      by (auto dest: find_SomeD)
    from u have uin: "u \<in> set (users st)" and uid: "user_id u = rt_userId r"
      by (auto dest: user_findUnique_id_Some)
    from rin rows1 have both: "r \<in> set (refreshTokens st1)" by simp
    from rows1 n have new1: "refreshToken' toks \<in> set (map token (refreshTokens st1))"
      by auto
    from refreshToken_persisted [OF ok succ]
    have new2: "refreshToken' toks \<in> set (map token (refreshTokens st'))"
      by force
    from rin rtok uin uid g both new1 d refreshToken_consumed [OF ok succ] new2
    show ?thesis by blast
  qed
  have failure: "st' = st" if "refreshToken tz cfg now st tok = (Inl e, st')" for e st'
    using refreshToken_Inl [OF that] by simp
  from success failure show ?thesis by blast
qed

theorem refresh_creates_then_deletes_witness:
  "store_ok exampleStore \<and>
   refreshToken utcZone exampleService 6000 exampleStore exampleRT =
     (Inr \<lparr>accessToken = exampleAT2, refreshToken' = exampleRT2\<rparr>, rotatedStore) \<and>
   generateTokens utcZone exampleService 6000 exampleStore 0 ''a@x'' =
     (Inr \<lparr>accessToken = exampleAT2, refreshToken' = exampleRT2\<rparr>, loggedInStore) \<and>
   map token (refreshTokens loggedInStore) = [exampleRT, exampleRT2] \<and>
   refreshToken_delete loggedInStore 0 = Inr rotatedStore \<and>
   map token (refreshTokens rotatedStore) = [exampleRT2] \<and>
   refreshToken utcZone exampleService 5500 exampleStore exampleRT =
     (Inl (ServiceError ''Invalid refresh token'' 401 (Some UniqueConstraintFailed)), exampleStore)"
  using refresh_creates_then_deletes [OF store_ok_exampleStore, of utcZone exampleService 6000 exampleRT]
    refresh_creates_then_deletes [OF store_ok_exampleStore, of utcZone exampleService 5500 exampleRT]
    store_ok_exampleStore example_refresh
  by (simp add: run_defs ex_defs loggedInStore_def)

subsection \<open>register, then login\<close>

text \<open>
  C4 at a failing input: \<open>a@x\<close> registers at millisecond 5000 and logs in with the same
  password at millisecond 5500. Both calls sign the refresh token in second 5 over the
  same payload, so \<open>login\<close> mints the token that \<open>register\<close> stored, the creation of
  its record violates the unique token column, and \<open>login\<close> throws that error.
\<close>

theorem register_then_login_same_second:
  "register utcZone exampleService 5000 ''s'' emptyStore ''a@x'' ''pw'' =
     (Inr \<lparr>accessToken = exampleAT, refreshToken' = exampleRT\<rparr>, exampleStore) \<and>
   login utcZone exampleService 5500 exampleStore ''a@x'' ''pw'' =
     (Inl (Thrown UniqueConstraintFailed), exampleStore)"
  by (simp add: run_defs ex_defs)


text \<open>
  Once the clock has reached the next second, the login succeeds and its tokens carry
  the id of the registered user. \<open>issued_before\<close> says that the store holds no token
  from the future.
\<close>

lemma find_snoc:
  "find P (xs @ [y]) = (case find P xs of None \<Rightarrow> (if P y then Some y else None) | Some x \<Rightarrow> Some x)"
  by (induction xs) auto

lemma issued_before_fresh:
  assumes "issued_before (now div 1000) st"
  shows "jwt_sign uid em secret ttl now \<notin> set (map token (refreshTokens st))"
proof
  assume "jwt_sign uid em secret ttl now \<in> set (map token (refreshTokens st))"
  then obtain r where r: "r \<in> set (refreshTokens st)" "token r = jwt_sign uid em secret ttl now"
    by auto
  from assms r(1) have "case token r of JWT p k \<Rightarrow> iat p < now div 1000 | NotJWT s \<Rightarrow> False"
    by (simp add: issued_before_def list_all_iff)
  with r(2) show False by (simp add: jwt_sign_def)
qed

lemma login_succeeds_later:
  assumes found: "user_findUnique_email st em = Some u"
    and pw: "hash_plain (password u) = pw"
    and old: "issued_before (now div 1000) st"
  shows "\<exists>toks st'. login tz cfg now st em pw = (Inr toks, st') \<and>
           userId (claims (accessToken toks)) = user_id u \<and>
           userId (claims (refreshToken' toks)) = user_id u"
proof -
  from found have "user_id u \<in> set (map user_id (users st))"
    by (auto dest: user_findUnique_email_Some)
  with issued_before_fresh [OF old] have
    "\<exists>toks st'. generateTokens tz cfg now st (user_id u) (user_email u) = (Inr toks, st')"
    by (simp add: generateTokens_Inr)
  then obtain toks st' where
    g: "generateTokens tz cfg now st (user_id u) (user_email u) = (Inr toks, st')"
    by blast
  with found pw have "login tz cfg now st em pw = (Inr toks, st')"
    by (simp add: login_def bcrypt_compare_def)
  with generateTokens_record [OF g] show ?thesis by auto
qed

lemma register_then_login_next_second:
  assumes old: "issued_before (Suc (now div 1000)) st"
    and reg: "register tz cfg now salt st em pw = (Inr toks, st')"
    and later: "now div 1000 < now' div 1000"
  shows "\<exists>toks' st''. login tz cfg now' st' em pw = (Inr toks', st'') \<and>
           userId (claims (accessToken toks')) = userId (claims (accessToken toks))"
proof -
  from register_Inr [OF reg] obtain u :: UserRow and st1 where
    none: "user_findUnique_email st em = None"
    and rows1: "refreshTokens st1 = refreshTokens st"
    and users1: "users st1 = users st @ [u]"
    and u: "user_email u = em" "password u = bcrypt_hash pw (bcryptRounds cfg) salt"
    and g: "generateTokens tz cfg now st1 (user_id u) (user_email u) = (Inr toks, st')"
    by blast
  from generateTokens_record [OF g] obtain n :: RefreshToken where
    n: "refreshTokens st' = refreshTokens st1 @ [n]" "users st' = users st1"
      "token n = refreshToken' toks"
      "claims (refreshToken' toks) =
         \<lparr>userId = user_id u, email = user_email u, iat = now div 1000,
          exp = now div 1000 + jwtRefreshExpiresIn cfg\<rparr>"
      "claims (accessToken toks) =
         \<lparr>userId = user_id u, email = user_email u, iat = now div 1000,
          exp = now div 1000 + jwtExpiresIn cfg\<rparr>"
    by blast
  from g have "refreshToken' toks =
      jwt_sign (user_id u) (user_email u) (jwtRefreshSecret cfg) (jwtRefreshExpiresIn cfg) now"
    by (simp add: generateTokens_Inr)
  with n(3) have ntok: "token n =
      JWT \<lparr>userId = user_id u, email = user_email u, iat = now div 1000,
           exp = now div 1000 + jwtRefreshExpiresIn cfg\<rparr> (jwtRefreshSecret cfg)"
    by (simp add: jwt_sign_def)
  from none users1 n(2) u(1) have found: "user_findUnique_email st' em = Some u"
    by (simp add: user_findUnique_email_def find_snoc)
  from u(2) have pw: "hash_plain (password u) = pw"
    by (simp add: bcrypt_hash_def)
  have "issued_before (now' div 1000) st'"
    unfolding issued_before_def list_all_iff
  proof
    fix r assume "r \<in> set (refreshTokens st')"
    with n(1) rows1 consider "r = n" | "r \<in> set (refreshTokens st)" by auto
    then show "case token r of JWT p k \<Rightarrow> iat p < now' div 1000 | NotJWT s \<Rightarrow> False"
    proof cases
      case 1
      with ntok later show ?thesis by simp
    next
      case 2
      with old have "case token r of JWT p k \<Rightarrow> iat p < Suc (now div 1000) | NotJWT s \<Rightarrow> False"
        by (simp add: issued_before_def list_all_iff)
      with later show ?thesis by (auto split: jwt.splits)
    qed
  qed
  from login_succeeds_later [OF found pw this, of tz cfg] n(5) show ?thesis by auto
qed

end
